theory Spec2Isabelle
  imports Main "HOL-Library.Sublist"
begin

section \<open>Python string operations used by eval.py\<close>

text \<open>
  A Python \<open>str\<close> is modelled as a \<open>string\<close>, one \<open>char\<close> per code point (code points
  below 256). The functions of this section are the methods of \<open>str\<close> that eval.py calls:
  \<open>sub in s\<close>, \<open>s.split(sep, 1)\<close>, \<open>s.replace(old, new)\<close> and \<open>s.strip()\<close>.

  An exception is a value of type \<open>error\<close>, with its message. \<open>ArgumentError\<close> is the
  error exit of \<open>argparse\<close>; \<open>AdapterError\<close> and \<open>GenerationFailure\<close> are whatever the
  engine raises while it specializes a checkpoint and while it generates.
\<close>

datatype error =
    ArgumentError string
  | TypeError string
  | ValueError string
  | KeyError string
  | FileNotFoundError string
  | OSError string
  | AdapterError string
  | GenerationFailure string

text \<open>\<open>sub in s\<close>: \<open>sub\<close> occurs in \<open>s\<close> as a contiguous substring.\<close>

fun py_contains :: "'a list \<Rightarrow> 'a list \<Rightarrow> bool" where
  "py_contains sub [] = (sub = [])"
| "py_contains sub (c # cs) = (prefix sub (c # cs) \<or> py_contains sub cs)"

text \<open>
  The scan of \<open>s.split(sep, 1)\<close> and \<open>s.partition(sep)\<close>: the text before the leftmost
  occurrence of \<open>sep\<close> and the text after it, or \<open>None\<close> when \<open>sep\<close> does not occur.
\<close>

fun find_first :: "'a list \<Rightarrow> 'a list \<Rightarrow> ('a list \<times> 'a list) option" where
  "find_first sep [] = (if sep = [] then Some ([], []) else None)"
| "find_first sep (c # cs) =
     (if prefix sep (c # cs) then Some ([], drop (length sep) (c # cs))
      else map_option (\<lambda>(before, after). (c # before, after)) (find_first sep cs))"

text \<open>\<open>s.split(sep, 1)\<close>: at most one split; an empty separator raises \<open>ValueError\<close>.\<close>

definition py_split1 :: "string \<Rightarrow> string \<Rightarrow> error + string list" where
  "py_split1 s sep =
     (if sep = [] then Inl (ValueError ''empty separator'')
      else case find_first sep s of
             None \<Rightarrow> Inr [s]
           | Some (before, after) \<Rightarrow> Inr [before, after])"

text \<open>
  \<open>s.replace(old, new)\<close>: one scan from the left, replacing each occurrence of \<open>old\<close> that
  does not overlap the one replaced before it. The scan does not look again at text it
  has already produced. With an empty \<open>old\<close>, Python inserts \<open>new\<close> before every character
  and at the end.
\<close>

fun replace_scan :: "'a list \<Rightarrow> 'a list \<Rightarrow> 'a list \<Rightarrow> 'a list" where
  "replace_scan old new [] = []"
| "replace_scan old new (c # cs) =
     (if prefix old (c # cs) then new @ replace_scan old new (drop (length old - 1) cs)
      else c # replace_scan old new cs)"

definition py_replace :: "'a list \<Rightarrow> 'a list \<Rightarrow> 'a list \<Rightarrow> 'a list" where
  "py_replace s old new =
     (if old = [] then new @ concat (map (\<lambda>c. c # new) s) else replace_scan old new s)"

text \<open>
  \<open>str.isspace\<close> on the code points below 256: tab, line feed, vertical tab, form feed,
  carriage return, the four separators U+001C to U+001F, space, U+0085 and U+00A0.
\<close>

definition whitespace :: "char list" where
  "whitespace = [CHR 0x09, CHR 0x0A, CHR 0x0B, CHR 0x0C, CHR 0x0D,
                 CHR 0x1C, CHR 0x1D, CHR 0x1E, CHR 0x1F, CHR 0x20, CHR 0x85, CHR 0xA0]"

definition is_space :: "char \<Rightarrow> bool" where
  "is_space c = (c \<in> set whitespace)"

definition py_strip :: "string \<Rightarrow> string" where
  "py_strip s = rev (dropWhile is_space (rev (dropWhile is_space s)))"

section \<open>The prompt template and the extraction of the answer\<close>

text \<open>\<open>generate_prompt\<close> (eval.py, line 11); the second argument is not used.\<close>

definition generate_prompt :: "string \<Rightarrow> string" where
  "generate_prompt instruction = ''[INST] '' @ instruction @ '' [/INST]''"

datatype level = INFO | WARNING

datatype event =
    Log level string
  | Print string
  | LoadTokenizer string
  | OpenRead string
  | LoadModel string
  | Specialize string
  | OpenWrite string
  | Generate "int list" nat

text \<open>
  The body of the loop over the returned sequences, lines 120 to 127, on the decoded
  text: the hypothesis written to the table and the log records emitted. The tuple
  assignment \<open>_, output = output.split(...)\<close> raises \<open>ValueError\<close> unless the list has
  two elements.
\<close>

definition extract_hypothesis :: "string \<Rightarrow> string \<Rightarrow> error + string \<times> event list" where
  "extract_hypothesis example_id output =
     (if py_contains ''[/INST]'' output then
        (case py_split1 output ''[/INST]'' of
           Inl e \<Rightarrow> Inl e
         | Inr [_, out] \<Rightarrow>
             Inr (py_strip (py_replace (py_replace out ''<s>'' '''') ''</s>'' ''''), [])
         | Inr _ \<Rightarrow> Inl (ValueError ''not enough values to unpack''))
      else
        Inr ('''', [Log WARNING (''Got invalid response for '' @ example_id @ '': '' @ output)]))"

subsection \<open>The specification's description of the extraction\<close>

text \<open>
  The specification describes the answer as the text after the first occurrence of the
  marker, with every occurrence of the sequence markers deleted. These definitions follow
  those words: the position of the first occurrence, the text after it, and the deletion
  of every occurrence met in one pass from the left.
\<close>

fun first_index :: "'a list \<Rightarrow> 'a list \<Rightarrow> nat" where
  "first_index m [] = 0"
| "first_index m (c # cs) = (if prefix m (c # cs) then 0 else Suc (first_index m cs))"

definition after_first :: "'a list \<Rightarrow> 'a list \<Rightarrow> 'a list" where
  "after_first m t = drop (first_index m t + length m) t"

fun remove_all :: "'a list \<Rightarrow> 'a list \<Rightarrow> 'a list" where
  "remove_all pat [] = []"
| "remove_all pat (c # cs) =
     (if pat \<noteq> [] \<and> prefix pat (c # cs) then remove_all pat (drop (length pat - 1) cs)
      else c # remove_all pat cs)"

text \<open>
  Every \<open><\<close> of the text begins one of the listed markers: the markers of the text are
  neither nested nor overlapping, and no other \<open><\<close> occurs.
\<close>

fun only_starts :: "string list \<Rightarrow> string \<Rightarrow> bool" where
  "only_starts ms [] = True"
| "only_starts ms (c # cs) =
     ((c = CHR ''<'' \<longrightarrow> (\<exists>m \<in> set ms. prefix m (c # cs))) \<and> only_starts ms cs)"

definition well_framed :: "string \<Rightarrow> bool" where
  "well_framed s = only_starts [''<s>'', ''</s>''] s"

section \<open>The command line\<close>

text \<open>
  The namespace returned by \<open>parser.parse_args()\<close>. \<open>--checkpoints\<close> is declared with
  \<open>nargs="*"\<close> and no default, so its value is \<open>None\<close> when the option is absent and a
  list, possibly empty, when it is present.
\<close>

record namespace =
  base_model :: string
  checkpoints :: "string list option"
  output_dir :: string
  dataset :: string
  preset :: string

definition defaults :: namespace where
  "defaults = \<lparr>base_model = ''mistralai/Mistral-7B-v0.1'', checkpoints = None,
                output_dir = ''eval'', dataset = ''data/flores_eng_ukr_major.csv'',
                preset = ''greedy''\<rparr>"

definition choices :: "string list" where
  "choices = [''greedy'', ''beam25'', ''beam15'', ''beam10'']"

text \<open>
  The parser built at lines 24 to 31, on command lines that spell each option in full and
  give each value as a word of its own. A word of two or more characters that starts with
  \<open>-\<close> is read as an option, never as a value. An option declared without \<open>nargs\<close> takes
  exactly one value; \<open>--checkpoints\<close> takes the values up to the next option. A value of
  \<open>--preset\<close> outside \<open>choices\<close> ends the parse at once; words that belong to no option are
  collected and reported when the command line has been read. Every error makes the
  process exit. Outside the model are abbreviated options, \<open>--option=value\<close>, \<open>-h\<close>, the
  separator \<open>--\<close>, and the words starting with \<open>-\<close> that \<open>argparse\<close> reads as values
  (negative numbers, words with a space): the model reports them as unrecognized.
\<close>

definition option_like :: "string \<Rightarrow> bool" where
  "option_like t = (case t of c # _ # _ \<Rightarrow> c = CHR ''-'' | _ \<Rightarrow> False)"

definition store :: "string \<Rightarrow> string \<Rightarrow> namespace \<Rightarrow> namespace" where
  "store opt v a =
     (if opt = ''--base_model'' then a\<lparr>base_model := v\<rparr>
      else if opt = ''--output-dir'' then a\<lparr>output_dir := v\<rparr>
      else if opt = ''--dataset'' then a\<lparr>dataset := v\<rparr>
      else a\<lparr>preset := v\<rparr>)"

function consume :: "string list \<Rightarrow> namespace \<Rightarrow> string list \<Rightarrow> error + namespace" where
  "consume [] a extras =
     (if extras = [] then Inr a
      else Inl (ArgumentError (''unrecognized arguments:'' @ concat (map ((@) '' '') extras))))"
| "consume (t # ts) a extras =
     (if t = ''--checkpoints'' then
        consume (dropWhile (\<lambda>v. \<not> option_like v) ts)
          (a\<lparr>checkpoints := Some (takeWhile (\<lambda>v. \<not> option_like v) ts)\<rparr>) extras
      else if t \<in> set [''--base_model'', ''--output-dir'', ''--dataset'', ''--preset''] then
        (case ts of
           [] \<Rightarrow> Inl (ArgumentError (''argument '' @ t @ '': expected one argument''))
         | v # rest \<Rightarrow>
             if option_like v then
               Inl (ArgumentError (''argument '' @ t @ '': expected one argument''))
             else if t = ''--preset'' \<and> v \<notin> set choices then
               Inl (ArgumentError (''argument --preset: invalid choice: '' @ v))
             else consume rest (store t v a) extras)
      else consume ts a (extras @ [t]))"
  by pat_completeness auto
termination
  by (relation "measure (\<lambda>(ts, a, extras). length ts)")
     (auto simp: length_dropWhile_le less_Suc_eq_le)

definition parse_args :: "string list \<Rightarrow> error + namespace" where
  "parse_args argv = consume argv defaults []"

text \<open>The choice of the beam count, lines 97 to 103.\<close>

definition beams :: "string \<Rightarrow> nat" where
  "beams p = (if p = ''beam25'' then 25 else if p = ''beam15'' then 15
              else if p = ''beam10'' then 10 else 1)"

section \<open>The environment: tokenizer, engine, files and log\<close>

text \<open>
  The libraries eval.py calls are parameters of the model. The tokenizer and the csv
  module are functions: \<open>tokenize\<close>, \<open>decode\<close>, \<open>read_csv\<close> (the rows \<open>csv.DictReader\<close>
  yields for a text, each a dictionary with string values) and \<open>format_row\<close> (the text
  \<open>csv.writer\<close> writes for one row). \<open>writable\<close> says whether \<open>open(path, "w")\<close> succeeds.
  The models are opaque: everything the engine holds (the base model, the model derived
  from it, the device) is one value of type \<open>'e\<close>, which every call of the engine may
  change. \<open>specialize\<close> stands for lines 83 to 89 and may raise; \<open>generate\<close> stands for
  \<open>peft_model.generate\<close> and returns the sequences or raises. Loading the tokenizer and
  the base model, tokenizing and decoding are taken to return.
\<close>

record 'e env =
  tokenize :: "string \<Rightarrow> int list"
  decode :: "int list \<Rightarrow> string"
  read_csv :: "string \<Rightarrow> (string \<rightharpoonup> string) list"
  format_row :: "string list \<Rightarrow> string"
  writable :: "string \<Rightarrow> bool"
  load_model :: "string \<Rightarrow> 'e \<Rightarrow> 'e"
  specialize :: "string \<Rightarrow> 'e \<Rightarrow> string option \<times> 'e"
  generate :: "int list \<Rightarrow> nat \<Rightarrow> 'e \<Rightarrow> (string + int list list) \<times> 'e"

text \<open>
  The state eval.py acts on: the files by path, the log records, printed lines and
  library calls in the order they happened, and the state of the engine.
\<close>

record 'e world =
  files :: "string \<rightharpoonup> string"
  trace :: "event list"
  engine :: 'e

definition emit :: "event list \<Rightarrow> 'e world \<Rightarrow> 'e world" where
  "emit evs w = w\<lparr>trace := trace w @ evs\<rparr>"

text \<open>Writing to the open file: the text is appended to what the file holds.\<close>

definition write_file :: "string \<Rightarrow> string \<Rightarrow> 'e world \<Rightarrow> 'e world" where
  "write_file path new w =
     w\<lparr>files := (files w)(path \<mapsto> (case files w path of None \<Rightarrow> new | Some old \<Rightarrow> old @ new))\<rparr>"

fun string_of_nat :: "nat \<Rightarrow> string" where
  "string_of_nat n =
     (if n < 10 then [''0123456789'' ! n]
      else string_of_nat (n div 10) @ [''0123456789'' ! (n mod 10)])"

section \<open>Loading the dataset\<close>

text \<open>
  An element of the list \<open>dataset\<close>. The keys \<open>id\<close> and \<open>trans\<close> of the source are the
  fields \<open>ex_id\<close> and \<open>ex_trans\<close>: the bare names are constants of HOL.
\<close>

record example =
  ex_id :: string
  orig :: string
  ex_trans :: string
  prompt :: string
  input_ids :: "int list"

text \<open>
  The loop of lines 51 to 64 over the rows of the reader. Reading a column the row does
  not have raises \<open>KeyError\<close>; the columns are read in the order of the source.
\<close>

fun load_rows :: "'e env \<Rightarrow> (string \<rightharpoonup> string) list \<Rightarrow> error + example list" where
  "load_rows env [] = Inr []"
| "load_rows env (d # ds) =
     (case d ''sentence_eng_Latn'' of
        None \<Rightarrow> Inl (KeyError ''sentence_eng_Latn'')
      | Some src \<Rightarrow>
          (case d ''id'' of
             None \<Rightarrow> Inl (KeyError ''id'')
           | Some i \<Rightarrow>
               (case d ''sentence_ukr_Cyrl'' of
                  None \<Rightarrow> Inl (KeyError ''sentence_ukr_Cyrl'')
                | Some tgt \<Rightarrow>
                    (case load_rows env ds of
                       Inl e \<Rightarrow> Inl e
                     | Inr exs \<Rightarrow>
                         Inr (\<lparr>ex_id = i, orig = src, ex_trans = tgt,
                               prompt = generate_prompt src,
                               input_ids = tokenize env (generate_prompt src)\<rparr> # exs)))))"

section \<open>Evaluating the checkpoints\<close>

definition fieldnames :: "string list" where
  "fieldnames = [''id'', ''source'', ''reference'', ''hypothesis'']"

definition output_file :: "namespace \<Rightarrow> string \<Rightarrow> string" where
  "output_file a checkpoint =
     output_dir a @ ''/'' @ py_replace checkpoint ''/'' ''-'' @ ''.'' @ preset a @ ''.csv''"

text \<open>
  The loop over the returned sequences, lines 118 to 137: decode, extract, print, write
  the row. The result is the exception raised, if any, and the world it leaves.
\<close>

fun eval_sequences ::
  "'e env \<Rightarrow> string \<Rightarrow> example \<Rightarrow> int list list \<Rightarrow> 'e world \<Rightarrow> error option \<times> 'e world" where
  "eval_sequences env path ex [] w = (None, w)"
| "eval_sequences env path ex (s # ss) w =
     (case extract_hypothesis (ex_id ex) (decode env s) of
        Inl e \<Rightarrow> (Some e, w)
      | Inr (hyp, logged) \<Rightarrow>
          eval_sequences env path ex ss
            (write_file path (format_row env [ex_id ex, orig ex, ex_trans ex, hyp])
               (emit (logged @ [Print hyp]) w)))"

text \<open>
  The loop over the examples, lines 105 to 137. An exception of \<open>generate\<close> is not caught:
  it leaves the loop, and the \<open>with\<close> statement closes the file with the rows written so
  far.
\<close>

fun eval_examples ::
  "'e env \<Rightarrow> string \<Rightarrow> nat \<Rightarrow> example list \<Rightarrow> 'e world \<Rightarrow> error option \<times> 'e world" where
  "eval_examples env path b [] w = (None, w)"
| "eval_examples env path b (ex # exs) w =
     (case generate env (input_ids ex) b (engine w) of
        (Inl msg, e) \<Rightarrow>
          (Some (GenerationFailure msg), emit [Generate (input_ids ex) b] (w\<lparr>engine := e\<rparr>))
      | (Inr seqs, e) \<Rightarrow>
          (case eval_sequences env path ex seqs
                  (emit [Generate (input_ids ex) b] (w\<lparr>engine := e\<rparr>)) of
             (Some err, w') \<Rightarrow> (Some err, w')
           | (None, w') \<Rightarrow> eval_examples env path b exs w'))"

text \<open>The body of the loop over the checkpoints, lines 75 to 137.\<close>

definition eval_checkpoint ::
  "'e env \<Rightarrow> namespace \<Rightarrow> example list \<Rightarrow> string \<Rightarrow> 'e world \<Rightarrow> error option \<times> 'e world" where
  "eval_checkpoint env a ds checkpoint w =
     (let w1 = emit [Log INFO (''Loading checkpoint '' @ checkpoint)] w;
          path = output_file a checkpoint
      in if files w1 path \<noteq> None then
           (None, emit [Log INFO (''Skipping '' @ checkpoint @ '' - already exists'')] w1)
         else
           (case specialize env checkpoint (engine w1) of
              (Some msg, e) \<Rightarrow>
                (Some (AdapterError msg), emit [Specialize checkpoint] (w1\<lparr>engine := e\<rparr>))
            | (None, e) \<Rightarrow>
                (let w2 = emit [Specialize checkpoint] (w1\<lparr>engine := e\<rparr>)
                 in if \<not> writable env path then (Some (OSError path), w2)
                    else eval_examples env path (beams (preset a)) ds
                           (write_file path (format_row env fieldnames)
                              (emit [OpenWrite path] (w2\<lparr>files := (files w2)(path \<mapsto> [])\<rparr>))))))"

text \<open>The loop over the checkpoints, line 74: nothing catches what the body raises.\<close>

fun run_checkpoints ::
  "'e env \<Rightarrow> namespace \<Rightarrow> example list \<Rightarrow> string list \<Rightarrow> 'e world \<Rightarrow> error option \<times> 'e world" where
  "run_checkpoints env a ds [] w = (None, w)"
| "run_checkpoints env a ds (c # cs) w =
     (case eval_checkpoint env a ds c w of
        (Some err, w') \<Rightarrow> (Some err, w')
      | (None, w') \<Rightarrow> run_checkpoints env a ds cs w')"

text \<open>
  The script, lines 23 to 137, on the words of the command line. \<open>len(args.checkpoints)\<close>
  raises \<open>TypeError\<close> when the option was absent.
\<close>

definition main :: "'e env \<Rightarrow> string list \<Rightarrow> 'e world \<Rightarrow> error option \<times> 'e world" where
  "main env argv w =
     (case parse_args argv of
        Inl e \<Rightarrow> (Some e, w)
      | Inr a \<Rightarrow>
          (case checkpoints a of
             None \<Rightarrow> (Some (TypeError ''object of type NoneType has no len()''), w)
           | Some cps \<Rightarrow>
               (let w1 = emit [Log INFO (''Got '' @ string_of_nat (length cps)
                                          @ '' checkpoints to evaluate''),
                               Log INFO (''Loading tokenizer '' @ base_model a),
                               LoadTokenizer (base_model a),
                               Log INFO (''Loading dataset '' @ dataset a)] w
                in case files w1 (dataset a) of
                     None \<Rightarrow> (Some (FileNotFoundError (dataset a)), w1)
                   | Some content \<Rightarrow>
                       (case load_rows env (read_csv env content) of
                          Inl e \<Rightarrow> (Some e, emit [OpenRead (dataset a)] w1)
                        | Inr ds \<Rightarrow>
                            run_checkpoints env a ds cps
                              (emit [OpenRead (dataset a),
                                     Log INFO (''Loaded and tokenized ''
                                               @ string_of_nat (length ds) @ '' examples''),
                                     LoadModel (base_model a),
                                     Log INFO ''Loaded base model'']
                                 (w1\<lparr>engine := load_model env (base_model a) (engine w1)\<rparr>))))))"

section \<open>What a run is expected to leave\<close>

text \<open>
  The vocabulary of the properties below. \<open>generations\<close> lists, for the examples in
  dataset order, the sequences the engine returns, up to the first call that raises.
  \<open>rows_of\<close> lists one row for each of those sequences, in the same order, and \<open>table_of\<close>
  is the text of a table: the header, then the rows. \<open>warnings_of\<close> is the warning due
  for a decoded text, and \<open>skip_log\<close> is what a skipped checkpoint adds to the log.
\<close>

fun is_generate :: "event \<Rightarrow> bool" where
  "is_generate (Generate ids b) = True"
| "is_generate ev = False"

fun is_specialize :: "event \<Rightarrow> bool" where
  "is_specialize (Specialize c) = True"
| "is_specialize ev = False"

fun is_warning :: "event \<Rightarrow> bool" where
  "is_warning (Log WARNING msg) = True"
| "is_warning ev = False"

definition skip_log :: "string \<Rightarrow> event list" where
  "skip_log c = [Log INFO (''Loading checkpoint '' @ c),
                 Log INFO (''Skipping '' @ c @ '' - already exists'')]"

fun generations ::
  "'e env \<Rightarrow> nat \<Rightarrow> example list \<Rightarrow> 'e \<Rightarrow> (example \<times> int list list) list" where
  "generations env b [] e = []"
| "generations env b (ex # exs) e =
     (case generate env (input_ids ex) b e of
        (Inl msg, e') \<Rightarrow> []
      | (Inr seqs, e') \<Rightarrow> (ex, seqs) # generations env b exs e')"

definition hypothesis_of :: "string \<Rightarrow> string \<Rightarrow> string" where
  "hypothesis_of example_id output =
     (case extract_hypothesis example_id output of Inl e \<Rightarrow> [] | Inr (hyp, logged) \<Rightarrow> hyp)"

definition warnings_of :: "string \<Rightarrow> string \<Rightarrow> event list" where
  "warnings_of example_id output =
     (if py_contains ''[/INST]'' output then []
      else [Log WARNING (''Got invalid response for '' @ example_id @ '': '' @ output)])"

definition row_of :: "'e env \<Rightarrow> example \<Rightarrow> int list \<Rightarrow> string list" where
  "row_of env ex s = [ex_id ex, orig ex, ex_trans ex, hypothesis_of (ex_id ex) (decode env s)]"

definition rows_of :: "'e env \<Rightarrow> (example \<times> int list list) list \<Rightarrow> string list list" where
  "rows_of env gens = concat (map (\<lambda>(ex, seqs). map (row_of env ex) seqs) gens)"

definition table_of :: "'e env \<Rightarrow> string list list \<Rightarrow> string" where
  "table_of env rows = format_row env fieldnames @ concat (map (format_row env) rows)"

section \<open>Small environments for the examples\<close>

text \<open>
  A dataset of one row, a row format that joins the fields with commas, and an engine
  whose state counts the checkpoints specialized. \<open>demo_env\<close> returns two sequences for
  every example, the second of which decodes to a text without the marker. \<open>flaky_env\<close>
  generates for the first checkpoint and raises for every later one.
\<close>

definition demo_rows :: "(string \<rightharpoonup> string) list" where
  "demo_rows = [[''id'' \<mapsto> ''1'', ''sentence_eng_Latn'' \<mapsto> ''Hello'',
                 ''sentence_ukr_Cyrl'' \<mapsto> ''Pryvit'']]"

fun comma_row :: "string list \<Rightarrow> string" where
  "comma_row [] = [CHR 0x0A]"
| "comma_row [f] = f @ [CHR 0x0A]"
| "comma_row (f # fs) = f @ '','' @ comma_row fs"

definition demo_env :: "nat env" where
  "demo_env =
     \<lparr>tokenize = (\<lambda>s. [int (length s)]),
      decode = (\<lambda>ts. if ts = [1] then ''<s>[INST] Hello [/INST]Hi</s>'' else ''Hi''),
      read_csv = (\<lambda>content. demo_rows),
      format_row = comma_row,
      writable = (\<lambda>path. True),
      load_model = (\<lambda>name e. e),
      specialize = (\<lambda>c e. (None, Suc e)),
      generate = (\<lambda>ids b e. (Inr [[1], [2]], e))\<rparr>"

definition flaky_env :: "nat env" where
  "flaky_env =
     demo_env\<lparr>generate := (\<lambda>ids b e. (if e = 1 then Inr [[1]] else Inl ''out of memory'', e))\<rparr>"

definition demo_example :: example where
  "demo_example = \<lparr>ex_id = ''1'', orig = ''Hello'', ex_trans = ''Pryvit'',
                    prompt = ''[INST] Hello [/INST]'', input_ids = [20]\<rparr>"

definition demo_world :: "nat world" where
  "demo_world = \<lparr>files = [''data/flores_eng_ukr_major.csv'' \<mapsto> ''the benchmark''],
                  trace = [], engine = 0\<rparr>"

text \<open>The worlds left by a first run over one checkpoint.\<close>

definition demo_done :: "nat world" where
  "demo_done =
     snd (run_checkpoints demo_env defaults [demo_example] [''adapters/ckpt1''] demo_world)"

definition flaky_done :: "nat world" where
  "flaky_done = snd (run_checkpoints flaky_env defaults [demo_example] [''a''] demo_world)"

section \<open>Facts about the string operations\<close>

lemma py_contains_sublist: "py_contains sub s = sublist sub s"
  by (induction s) (auto simp: sublist_Cons_right)

lemma find_first_None: "(find_first sep s = None) = (\<not> py_contains sep s)"
  by (induction s) auto

lemma find_first_Some: "find_first sep s = Some (a, b) \<Longrightarrow> s = a @ sep @ b"
  apply (induction s arbitrary: a)
   apply (auto split: if_splits simp: prefix_def)
  done

lemma find_first_leftmost:
  "sep \<noteq> [] \<Longrightarrow> \<not> py_contains sep (pre @ butlast sep) \<Longrightarrow>
   find_first sep (pre @ sep @ suf) = Some (pre, suf)"
proof (induction pre)
  case Nil
  then show ?case by (cases sep) auto
next
  case (Cons c cs)
  have "\<not> prefix sep (c # cs @ sep @ suf)"
  proof
    assume p: "prefix sep (c # cs @ sep @ suf)"
    have split: "c # cs @ sep @ suf = (c # cs @ butlast sep) @ (last sep # suf)"
      using Cons.prems(1) by simp
    have "prefix (c # cs @ butlast sep) ((c # cs @ butlast sep) @ (last sep # suf))"
      by (rule prefixI) simp
    moreover have "length sep \<le> length (c # cs @ butlast sep)"
      using Cons.prems(1) by simp
    ultimately have "prefix sep (c # cs @ butlast sep)"
      using p unfolding split by (rule prefix_length_prefix[rotated])
    with Cons.prems(2) show False by simp
  qed
  with Cons show ?case by auto
qed

lemma prefix_past_absent:
  "x \<notin> set m \<Longrightarrow> prefix m (u @ x # b) = prefix m u"
  by (auto simp: prefix_append prefix_Cons)

lemma py_contains_split_at:
  "x \<notin> set m \<Longrightarrow> py_contains m (a @ x # b) = (py_contains m a \<or> py_contains m b)"
proof (induction a)
  case Nil
  then show ?case by (cases m) (auto simp: prefix_Cons)
next
  case (Cons c cs)
  have "prefix m ((c # cs) @ x # b) = prefix m (c # cs)"
    using Cons.prems by (rule prefix_past_absent)
  with Cons show ?case by auto
qed

lemma replace_scan_absent: "\<not> py_contains old s \<Longrightarrow> replace_scan old new s = s"
  by (induction s) auto

lemma remove_all_replace: "old \<noteq> [] \<Longrightarrow> py_replace s old [] = remove_all old s"
  unfolding py_replace_def
  by (induction old "[]::'a list" s rule: replace_scan.induct) auto

lemma after_first_find: "find_first m t = Some (a, b) \<Longrightarrow> after_first m t = b"
  unfolding after_first_def
  by (induction t arbitrary: a) (auto split: if_splits)

lemma extract_found:
  assumes "find_first ''[/INST]'' t = Some (a, b)"
  shows "extract_hypothesis eid t =
           Inr (py_strip (py_replace (py_replace b ''<s>'' '''') ''</s>'' ''''), [])"
  using assms by (simp add: extract_hypothesis_def py_split1_def find_first_None[symmetric])

lemma only_starts_drop: "only_starts ms s \<Longrightarrow> only_starts ms (drop n s)"
  by (induction s arbitrary: n) (auto simp: drop_Cons split: nat.splits)

lemma strip_open_markers:
  "only_starts [''<s>'', ''</s>''] s \<Longrightarrow> only_starts [''</s>''] (replace_scan ''<s>'' '''' s)"
proof (induction s rule: length_induct)
  case (1 s)
  show ?case
  proof (cases s)
    case Nil
    then show ?thesis by simp
  next
    case (Cons c cs)
    show ?thesis
    proof (cases "prefix ''<s>'' (c # cs)")
      case True
      have "only_starts [''<s>'', ''</s>''] (drop (Suc (Suc 0)) cs)"
        using "1.prems" Cons by (simp add: only_starts_drop)
      moreover have "length (drop (Suc (Suc 0)) cs) < length s" using Cons by simp
      ultimately have "only_starts [''</s>''] (replace_scan ''<s>'' '''' (drop (Suc (Suc 0)) cs))"
        using "1.IH" by blast
      with True Cons show ?thesis by simp
    next
      case False
      have ih: "only_starts [''</s>''] (replace_scan ''<s>'' '''' cs)"
        using "1.IH" "1.prems" Cons by simp
      show ?thesis
      proof (cases "c = CHR ''<''")
        case True
        with False "1.prems" Cons have "prefix ''</s>'' (c # cs)" by auto
        then obtain r where "cs = ''/s>'' @ r" by (auto simp: prefix_Cons prefix_def)
        with ih False Cons True show ?thesis by auto
      next
        case False
        with ih Cons \<open>\<not> prefix ''<s>'' (c # cs)\<close> show ?thesis by simp
      qed
    qed
  qed
qed

lemma strip_close_markers:
  "only_starts [''</s>''] s \<Longrightarrow> CHR ''<'' \<notin> set (replace_scan ''</s>'' '''' s)"
proof (induction s rule: length_induct)
  case (1 s)
  show ?case
  proof (cases s)
    case Nil
    then show ?thesis by simp
  next
    case (Cons c cs)
    show ?thesis
    proof (cases "prefix ''</s>'' (c # cs)")
      case True
      have "only_starts [''</s>''] (drop (Suc (Suc (Suc 0))) cs)"
        using "1.prems" Cons by (simp add: only_starts_drop)
      moreover have "length (drop (Suc (Suc (Suc 0))) cs) < length s" using Cons by simp
      ultimately have "CHR ''<'' \<notin> set (replace_scan ''</s>'' '''' (drop (Suc (Suc (Suc 0))) cs))"
        using "1.IH" by blast
      with True Cons show ?thesis by simp
    next
      case False
      have "CHR ''<'' \<notin> set (replace_scan ''</s>'' '''' cs)"
        using "1.IH" "1.prems" Cons by simp
      moreover have "c \<noteq> CHR ''<''" using False "1.prems" Cons by auto
      ultimately show ?thesis using False Cons by simp
    qed
  qed
qed

lemma set_py_strip: "set (py_strip s) \<subseteq> set s"
  unfolding py_strip_def
  by (metis set_dropWhileD set_rev subsetI)

lemma py_contains_set: "py_contains m s \<Longrightarrow> set m \<subseteq> set s"
  unfolding py_contains_sublist by (rule set_mono_sublist)

lemma prompt_marker_leftmost:
  assumes "\<not> py_contains ''[/INST]'' s"
  shows "find_first ''[/INST]'' (generate_prompt s @ h) = Some (''[INST] '' @ s @ '' '', h)"
proof -
  have sp: "CHR '' '' \<notin> set ''[/INST]''" by simp
  have "\<not> py_contains ''[/INST]'' (''[INST]'' @ CHR '' '' # (s @ CHR '' '' # ''[/INST''))"
    using assms by (simp only: py_contains_split_at[OF sp]) simp
  then have "\<not> py_contains ''[/INST]'' ((''[INST] '' @ s @ '' '') @ butlast ''[/INST]'')"
    by simp
  then have "find_first ''[/INST]'' ((''[INST] '' @ s @ '' '') @ ''[/INST]'' @ h)
             = Some (''[INST] '' @ s @ '' '', h)"
    by (intro find_first_leftmost) simp_all
  then show ?thesis by (simp add: generate_prompt_def)
qed

lemma find_first_before:
  "sep \<noteq> [] \<Longrightarrow> find_first sep s = Some (a, b) \<Longrightarrow> \<not> py_contains sep (a @ butlast sep)"
proof (induction s arbitrary: a)
  case Nil
  then show ?case by simp
next
  case (Cons c cs)
  show ?case
  proof (cases "prefix sep (c # cs)")
    case True
    with Cons.prems have "a = []" by simp
    moreover have "\<not> sublist sep (butlast sep)"
      using Cons.prems(1) by (cases sep) (auto dest!: sublist_length_le)
    ultimately show ?thesis by (simp add: py_contains_sublist)
  next
    case False
    with Cons.prems obtain a' where a: "a = c # a'" and f: "find_first sep cs = Some (a', b)"
      by auto
    have cs: "cs = a' @ sep @ b" using f by (rule find_first_Some)
    have "\<not> prefix sep (c # a' @ butlast sep)"
    proof
      assume "prefix sep (c # a' @ butlast sep)"
      moreover have "prefix (c # a' @ butlast sep) (c # cs)"
        using Cons.prems(1) unfolding cs
        by (metis append_butlast_last_id Cons_prefix_Cons prefix_append prefix_order.order_refl same_prefix_prefix)
      ultimately have "prefix sep (c # cs)" by (rule prefix_order.trans)
      with False show False by simp
    qed
    with Cons.IH[OF Cons.prems(1) f] a show ?thesis by simp
  qed
qed

lemma no_residual_markers:
  assumes "well_framed suf"
  shows "CHR ''<'' \<notin> set (py_strip (py_replace (py_replace suf ''<s>'' '''') ''</s>'' ''''))"
proof -
  have "only_starts [''</s>''] (replace_scan ''<s>'' '''' suf)"
    using assms unfolding well_framed_def by (rule strip_open_markers)
  then have "CHR ''<'' \<notin> set (replace_scan ''</s>'' '''' (replace_scan ''<s>'' '''' suf))"
    by (rule strip_close_markers)
  then show ?thesis using set_py_strip by (fastforce simp: py_replace_def)
qed

section \<open>Facts about the loops\<close>

lemma extract_total:
  "extract_hypothesis eid t = Inr (hypothesis_of eid t, warnings_of eid t)"
proof (cases "find_first ''[/INST]'' t")
  case None
  then show ?thesis
    by (simp add: hypothesis_of_def warnings_of_def extract_hypothesis_def find_first_None)
next
  case (Some ab)
  then obtain a b where ab: "find_first ''[/INST]'' t = Some (a, b)" by (cases ab) simp
  then have "py_contains ''[/INST]'' t" using find_first_None[of "''[/INST]''" t] by simp
  with ab show ?thesis by (simp add: hypothesis_of_def warnings_of_def extract_found)
qed

lemma files_emit [simp]: "files (emit evs w) = files w"
  by (simp add: emit_def)

lemma engine_emit [simp]: "engine (emit evs w) = engine w"
  by (simp add: emit_def)

lemma trace_emit [simp]: "trace (emit evs w) = trace w @ evs"
  by (simp add: emit_def)

lemma emit_emit: "emit ys (emit xs w) = emit (xs @ ys) w"
  by (simp add: emit_def)

lemma files_write_file [simp]:
  "files (write_file path new w) =
     (files w)(path \<mapsto> (case files w path of None \<Rightarrow> new | Some old \<Rightarrow> old @ new))"
  by (simp add: write_file_def)

lemma engine_write_file [simp]: "engine (write_file path new w) = engine w"
  by (simp add: write_file_def)

lemma trace_write_file [simp]: "trace (write_file path new w) = trace w"
  by (simp add: write_file_def)

lemma eval_sequences_step:
  "eval_sequences env path ex (s # ss) w =
     eval_sequences env path ex ss
       (write_file path (format_row env (row_of env ex s))
          (emit (warnings_of (ex_id ex) (decode env s)
                 @ [Print (hypothesis_of (ex_id ex) (decode env s))]) w))"
  by (simp add: extract_total row_of_def)

lemma eval_sequences_ok: "fst (eval_sequences env path ex seqs w) = None"
  by (induction seqs arbitrary: w) (simp_all only: eval_sequences_step eval_sequences.simps fst_conv)

lemma eval_sequences_engine: "engine (snd (eval_sequences env path ex seqs w)) = engine w"
  by (induction seqs arbitrary: w) (simp_all only: eval_sequences_step eval_sequences.simps snd_conv engine_write_file engine_emit)

lemma eval_sequences_files:
  "files w path = Some old \<Longrightarrow>
   files (snd (eval_sequences env path ex seqs w)) =
     (files w)(path \<mapsto> old @ concat (map (\<lambda>s. format_row env (row_of env ex s)) seqs))"
proof (induction seqs arbitrary: w old)
  case Nil
  then show ?case by (simp add: fun_upd_idem)
next
  case (Cons s ss)
  let ?w = "write_file path (format_row env (row_of env ex s))
          (emit (warnings_of (ex_id ex) (decode env s)
                 @ [Print (hypothesis_of (ex_id ex) (decode env s))]) w)"
  have "files ?w path = Some (old @ format_row env (row_of env ex s))"
    using Cons.prems by simp
  from Cons.IH[OF this] show ?case
    using Cons.prems by (simp only: eval_sequences_step) (auto simp: fun_eq_iff)
qed


lemma eval_examples_files:
  "files w path = Some old \<Longrightarrow>
   files (snd (eval_examples env path b exs w)) =
     (files w)(path \<mapsto> old @ concat (map (format_row env)
                                (rows_of env (generations env b exs (engine w)))))"
proof (induction exs arbitrary: w old)
  case Nil
  then show ?case by (simp add: rows_of_def fun_upd_idem)
next
  case (Cons ex exs)
  obtain r e where g: "generate env (input_ids ex) b (engine w) = (r, e)" by force
  show ?case
  proof (cases r)
    case (Inl msg)
    with g Cons.prems show ?thesis by (simp add: rows_of_def fun_upd_idem)
  next
    case (Inr seqs)
    let ?w0 = "emit [Generate (input_ids ex) b] (w\<lparr>engine := e\<rparr>)"
    let ?sq = "eval_sequences env path ex seqs ?w0"
    have ok: "fst ?sq = None" by (rule eval_sequences_ok)
    have f0: "files ?w0 path = Some old" using Cons.prems by simp
    have f1: "files (snd ?sq) =
               (files w)(path \<mapsto> old @ concat (map (\<lambda>s. format_row env (row_of env ex s)) seqs))"
      using eval_sequences_files[OF f0, of env ex seqs] by simp
    have e1: "engine (snd ?sq) = e" by (simp add: eval_sequences_engine)
    have f2: "files (snd ?sq) path =
               Some (old @ concat (map (\<lambda>s. format_row env (row_of env ex s)) seqs))"
      by (simp add: f1)
    have step: "eval_examples env path b (ex # exs) w = eval_examples env path b exs (snd ?sq)"
      using g Inr ok by (cases ?sq) simp
    show ?thesis
      unfolding step Cons.IH[OF f2] e1 f1
      using g Inr by (simp add: rows_of_def o_def)
  qed
qed

lemma eval_examples_ok:
  "(fst (eval_examples env path b exs w) = None) =
   (map fst (generations env b exs (engine w)) = exs)"
proof (induction exs arbitrary: w)
  case Nil
  show ?case by simp
next
  case (Cons ex exs)
  obtain r e where g: "generate env (input_ids ex) b (engine w) = (r, e)" by force
  show ?case
  proof (cases r)
    case (Inl msg)
    with g show ?thesis by simp
  next
    case (Inr seqs)
    let ?w0 = "emit [Generate (input_ids ex) b] (w\<lparr>engine := e\<rparr>)"
    let ?sq = "eval_sequences env path ex seqs ?w0"
    have ok: "fst ?sq = None" by (rule eval_sequences_ok)
    have e1: "engine (snd ?sq) = e" by (simp add: eval_sequences_engine)
    have step: "eval_examples env path b (ex # exs) w = eval_examples env path b exs (snd ?sq)"
      using g Inr ok by (cases ?sq) simp
    show ?thesis unfolding step Cons.IH e1 using g Inr by simp
  qed
qed

lemma eval_examples_error:
  "fst (eval_examples env path b exs w) = Some err \<Longrightarrow> \<exists>msg. err = GenerationFailure msg"
proof (induction exs arbitrary: w)
  case Nil
  then show ?case by simp
next
  case (Cons ex exs)
  obtain r e where g: "generate env (input_ids ex) b (engine w) = (r, e)" by force
  show ?case
  proof (cases r)
    case (Inl msg)
    with g Cons.prems show ?thesis by auto
  next
    case (Inr seqs)
    let ?w0 = "emit [Generate (input_ids ex) b] (w\<lparr>engine := e\<rparr>)"
    let ?sq = "eval_sequences env path ex seqs ?w0"
    have ok: "fst ?sq = None" by (rule eval_sequences_ok)
    have step: "eval_examples env path b (ex # exs) w = eval_examples env path b exs (snd ?sq)"
      using g Inr ok by (cases ?sq) simp
    show ?thesis using Cons.IH Cons.prems unfolding step by blast
  qed
qed


lemma eval_checkpoint_skip:
  "files w (output_file a c) \<noteq> None \<Longrightarrow>
   eval_checkpoint env a ds c w = (None, emit (skip_log c) w)"
  by (auto simp: eval_checkpoint_def skip_log_def emit_emit Let_def)

lemma eval_checkpoint_frame:
  "p \<noteq> output_file a c \<Longrightarrow> files (snd (eval_checkpoint env a ds c w)) p = files w p"
proof (cases "files w (output_file a c)")
  case (Some old)
  then show ?thesis by (simp add: eval_checkpoint_skip)
next
  case None
  assume p: "p \<noteq> output_file a c"
  obtain r e where sp: "specialize env c (engine w) = (r, e)" by force
  show ?thesis
  proof (cases "r = None \<and> writable env (output_file a c)")
    case False
    with None sp show ?thesis by (auto simp: eval_checkpoint_def Let_def split: option.splits)
  next
    case True
    let ?path = "output_file a c"
    let ?w2 = "emit [Specialize c] (emit [Log INFO (''Loading checkpoint '' @ c)] w\<lparr>engine := e\<rparr>)"
    let ?w3 = "write_file ?path (format_row env fieldnames)
                 (emit [OpenWrite ?path] (?w2\<lparr>files := (files ?w2)(?path \<mapsto> [])\<rparr>))"
    have run: "eval_checkpoint env a ds c w = eval_examples env ?path (beams (preset a)) ds ?w3"
      using None sp True by (simp add: eval_checkpoint_def Let_def)
    have "files ?w3 ?path = Some (format_row env fieldnames)" by simp
    from eval_examples_files[OF this] show ?thesis unfolding run using p by simp
  qed
qed

lemma eval_checkpoint_table:
  assumes "files w (output_file a c) = None"
    and "fst (eval_checkpoint env a ds c w) = Some (GenerationFailure msg)
         \<or> fst (eval_checkpoint env a ds c w) = None"
  shows "files (snd (eval_checkpoint env a ds c w)) (output_file a c) =
           Some (table_of env (rows_of env
             (generations env (beams (preset a)) ds (snd (specialize env c (engine w))))))"
    and "(fst (eval_checkpoint env a ds c w) = None) =
           (map fst (generations env (beams (preset a)) ds (snd (specialize env c (engine w)))) = ds)"
proof -
  obtain r e where sp: "specialize env c (engine w) = (r, e)" by force
  have ok: "r = None \<and> writable env (output_file a c)"
    using assms sp by (auto simp: eval_checkpoint_def Let_def split: option.splits if_splits)
  let ?path = "output_file a c"
  let ?w2 = "emit [Specialize c] (emit [Log INFO (''Loading checkpoint '' @ c)] w\<lparr>engine := e\<rparr>)"
  let ?w3 = "write_file ?path (format_row env fieldnames)
               (emit [OpenWrite ?path] (?w2\<lparr>files := (files ?w2)(?path \<mapsto> [])\<rparr>))"
  have run: "eval_checkpoint env a ds c w = eval_examples env ?path (beams (preset a)) ds ?w3"
    using assms(1) sp ok by (simp add: eval_checkpoint_def Let_def)
  have f3: "files ?w3 ?path = Some (format_row env fieldnames)" by simp
  have e3: "engine ?w3 = e" by simp
  show "files (snd (eval_checkpoint env a ds c w)) (output_file a c) =
           Some (table_of env (rows_of env
             (generations env (beams (preset a)) ds (snd (specialize env c (engine w))))))"
    unfolding run eval_examples_files[OF f3] e3 by (simp add: sp table_of_def)
  show "(fst (eval_checkpoint env a ds c w) = None) =
           (map fst (generations env (beams (preset a)) ds (snd (specialize env c (engine w)))) = ds)"
    unfolding run eval_examples_ok e3 by (simp add: sp)
qed

lemma slug_replace: "py_replace c ''/'' ''-'' = map (\<lambda>x. if x = CHR ''/'' then CHR ''-'' else x) c"
  unfolding py_replace_def by (induction c) auto

lemma emit_Nil [simp]: "emit [] w = w"
  by (simp add: emit_def)

lemma eval_checkpoint_exists:
  assumes "fst (eval_checkpoint env a ds c w) = None"
  shows "files (snd (eval_checkpoint env a ds c w)) (output_file a c) \<noteq> None"
proof (cases "files w (output_file a c)")
  case None
  from eval_checkpoint_table(1)[OF None, of env ds] assms show ?thesis by simp
next
  case (Some old)
  then show ?thesis by (simp add: eval_checkpoint_skip)
qed

lemma eval_checkpoint_keeps:
  assumes "files w p \<noteq> None"
  shows "files (snd (eval_checkpoint env a ds c w)) p = files w p"
proof (cases "p = output_file a c")
  case True
  with assms show ?thesis by (simp add: eval_checkpoint_skip)
next
  case False
  then show ?thesis by (rule eval_checkpoint_frame)
qed

lemma run_checkpoints_step:
  "run_checkpoints env a ds (c # cs) w =
     (if fst (eval_checkpoint env a ds c w) = None
      then run_checkpoints env a ds cs (snd (eval_checkpoint env a ds c w))
      else eval_checkpoint env a ds c w)"
  by (cases "eval_checkpoint env a ds c w") (auto split: option.splits)

lemma run_checkpoints_keeps:
  "files w p \<noteq> None \<Longrightarrow> files (snd (run_checkpoints env a ds cs w)) p = files w p"
proof (induction cs arbitrary: w)
  case Nil
  show ?case by simp
next
  case (Cons c cs)
  have k: "files (snd (eval_checkpoint env a ds c w)) p = files w p"
    using Cons.prems by (rule eval_checkpoint_keeps)
  show ?case
    using Cons.IH[of "snd (eval_checkpoint env a ds c w)"] Cons.prems k
    by (simp only: run_checkpoints_step split: if_splits) simp
qed

lemma run_checkpoints_exist:
  "fst (run_checkpoints env a ds cs w) = None \<Longrightarrow> c \<in> set cs \<Longrightarrow>
   files (snd (run_checkpoints env a ds cs w)) (output_file a c) \<noteq> None"
proof (induction cs arbitrary: w)
  case Nil
  then show ?case by simp
next
  case (Cons x cs)
  let ?w1 = "snd (eval_checkpoint env a ds x w)"
  have ok: "fst (eval_checkpoint env a ds x w) = None"
    using Cons.prems(1) by (simp only: run_checkpoints_step split: if_splits) simp_all
  have run: "run_checkpoints env a ds (x # cs) w = run_checkpoints env a ds cs ?w1"
    using ok by (simp only: run_checkpoints_step) simp
  show ?case
  proof (cases "c = x")
    case True
    have "files ?w1 (output_file a c) \<noteq> None"
      using ok unfolding True by (rule eval_checkpoint_exists)
    then show ?thesis unfolding run by (simp add: run_checkpoints_keeps)
  next
    case False
    with Cons.prems(2) have "c \<in> set cs" by simp
    with Cons.IH[of ?w1] Cons.prems(1) show ?thesis unfolding run by simp
  qed
qed

lemma run_checkpoints_skip_all:
  "(\<forall>c \<in> set cs. files w (output_file a c) \<noteq> None) \<Longrightarrow>
   run_checkpoints env a ds cs w = (None, emit (concat (map skip_log cs)) w)"
proof (induction cs arbitrary: w)
  case Nil
  show ?case by simp
next
  case (Cons c cs)
  have s: "eval_checkpoint env a ds c w = (None, emit (skip_log c) w)"
    using Cons.prems by (simp add: eval_checkpoint_skip)
  have "\<forall>x \<in> set cs. files (emit (skip_log c) w) (output_file a x) \<noteq> None"
    using Cons.prems by simp
  from Cons.IH[OF this] show ?case by (simp add: s emit_emit)
qed

lemma run_checkpoints_abort:
  "run_checkpoints env a ds before w = (None, w1) \<Longrightarrow>
   eval_checkpoint env a ds c w1 = (Some e, w2) \<Longrightarrow>
   run_checkpoints env a ds (before @ c # after) w = (Some e, w2)"
proof (induction before arbitrary: w)
  case Nil
  then show ?case by simp
next
  case (Cons x xs)
  have ok: "fst (eval_checkpoint env a ds x w) = None"
    using Cons.prems(1) by (simp only: run_checkpoints_step split: if_splits) simp_all
  then have "run_checkpoints env a ds xs (snd (eval_checkpoint env a ds x w)) = (None, w1)"
    using Cons.prems(1) by (simp only: run_checkpoints_step) simp
  from Cons.IH[OF this Cons.prems(2)] ok show ?case
    by (simp only: append_Cons run_checkpoints_step) simp
qed

lemma generations_prefix: "prefix (map fst (generations env b exs e)) exs"
  by (induction exs arbitrary: e) (auto split: prod.splits sum.splits)

lemma skip_log_no_generate: "filter is_generate (concat (map skip_log cs)) = []"
  by (induction cs) (simp_all add: skip_log_def)

lemma skip_log_no_specialize: "filter is_specialize (concat (map skip_log cs)) = []"
  by (induction cs) (simp_all add: skip_log_def)

lemma eval_sequences_warnings:
  "length (filter is_warning (trace (snd (eval_sequences env path ex seqs w)))) =
     length (filter is_warning (trace w))
     + length (filter (\<lambda>s. \<not> py_contains ''[/INST]'' (decode env s)) seqs)"
proof (induction seqs arbitrary: w)
  case Nil
  show ?case by simp
next
  case (Cons s ss)
  show ?case
    unfolding eval_sequences_step Cons.IH
    by (simp add: warnings_of_def)
qed

lemma eval_examples_step:
  assumes "generate env (input_ids ex) b (engine w) = (Inr seqs, e)"
  shows "eval_examples env path b (ex # exs) w =
           eval_examples env path b exs
             (snd (eval_sequences env path ex seqs
                     (emit [Generate (input_ids ex) b] (w\<lparr>engine := e\<rparr>))))"
proof -
  let ?sq = "eval_sequences env path ex seqs (emit [Generate (input_ids ex) b] (w\<lparr>engine := e\<rparr>))"
  have "fst ?sq = None" by (rule eval_sequences_ok)
  then show ?thesis using assms by (cases ?sq) simp
qed

section \<open>Facts about the parser\<close>






section \<open>The claims\<close>

subsection \<open>Extraction of the answer\<close>

text \<open>
  Claim C10. Marker removal is global. For every decoded text that contains
  \<open>[/INST]\<close>, the hypothesis is the text after the first occurrence of \<open>[/INST]\<close>, from
  which first every occurrence of \<open><s>\<close> is deleted, then every occurrence of \<open></s>\<close>
  in what remains, and which is then trimmed of surrounding whitespace; no warning is
  logged. Markers in the middle of the answer are deleted like those at its ends.
\<close>

theorem extraction_removes_markers_everywhere:
  "py_contains ''[/INST]'' t \<Longrightarrow>
   extract_hypothesis eid t =
     Inr (py_strip (remove_all ''</s>'' (remove_all ''<s>'' (after_first ''[/INST]'' t))), [])"
proof -
  assume "py_contains ''[/INST]'' t"
  then obtain a b where f: "find_first ''[/INST]'' t = Some (a, b)"
    using find_first_None[of "''[/INST]''" t] by (cases "find_first ''[/INST]'' t") auto
  have "after_first ''[/INST]'' t = b" using f by (rule after_first_find)
  moreover have "py_replace (py_replace b ''<s>'' []) ''</s>'' []
                 = remove_all ''</s>'' (remove_all ''<s>'' b)"
    by (simp add: remove_all_replace)
  ultimately show ?thesis using extract_found[OF f, of eid] by simp
qed

text \<open>
  An instance: a \<open><s>\<close> and a \<open></s>\<close> inside the answer are deleted with the final
  \<open></s>\<close>.
\<close>

theorem extraction_removes_markers_everywhere_witness:
  "py_contains ''[/INST]'' ''<s>[INST] x [/INST] a<s>b</s>c</s>''
   \<and> extract_hypothesis ''1'' ''<s>[INST] x [/INST] a<s>b</s>c</s>'' = Inr (''abc'', [])"
  using extraction_removes_markers_everywhere[of "''<s>[INST] x [/INST] a<s>b</s>c</s>''" "''1''"]
  by (simp add: after_first_def py_strip_def is_space_def whitespace_def)

text \<open>
  Claim C2, as amended. Every decoded text \<open>t\<close> that contains \<open>[/INST]\<close> splits at the
  first occurrence of the marker into \<open>pre @ [/INST] @ suf\<close>, and the hypothesis is \<open>suf\<close>
  after one pass of \<open>replace\<close> deleting \<open><s>\<close>, one pass deleting \<open></s>\<close>, and \<open>strip\<close>.
  No \<open><s>\<close> and no \<open></s>\<close> remains in the hypothesis when every \<open><\<close> of \<open>suf\<close>
  begins one of the two markers. Without that condition a marker may remain: a pass does
  not look again at the text that a deletion joins.
\<close>

theorem extraction_after_first_marker:
  assumes "py_contains ''[/INST]'' t"
  shows "\<exists>pre suf. t = pre @ ''[/INST]'' @ suf
           \<and> \<not> py_contains ''[/INST]'' (pre @ ''[/INST'')
           \<and> extract_hypothesis eid t =
               Inr (py_strip (py_replace (py_replace suf ''<s>'' '''') ''</s>'' ''''), [])
           \<and> (well_framed suf \<longrightarrow>
                \<not> py_contains ''<s>''
                     (py_strip (py_replace (py_replace suf ''<s>'' '''') ''</s>'' ''''))
                \<and> \<not> py_contains ''</s>''
                     (py_strip (py_replace (py_replace suf ''<s>'' '''') ''</s>'' '''')))"
proof -
  obtain pre suf where f: "find_first ''[/INST]'' t = Some (pre, suf)"
    using assms find_first_None[of "''[/INST]''" t] by (cases "find_first ''[/INST]'' t") auto
  let ?r = "py_strip (py_replace (py_replace suf ''<s>'' '''') ''</s>'' '''')"
  have "t = pre @ ''[/INST]'' @ suf" using f by (rule find_first_Some)
  moreover have "\<not> py_contains ''[/INST]'' (pre @ ''[/INST'')"
    using find_first_before[OF _ f] by simp
  moreover have "extract_hypothesis eid t = Inr (?r, [])"
    using f by (rule extract_found)
  moreover have "\<not> py_contains ''<s>'' ?r \<and> \<not> py_contains ''</s>'' ?r" if "well_framed suf"
  proof -
    have "CHR ''<'' \<notin> set ?r" using that by (rule no_residual_markers)
    then show ?thesis
      using py_contains_set[of "''<s>''" ?r] py_contains_set[of "''</s>''" ?r] by auto
  qed
  ultimately show ?thesis by blast
qed

theorem extraction_after_first_marker_witness:
  "py_contains ''[/INST]'' ''<s>[INST] Hello [/INST]Hi <s>you</s>''
   \<and> (\<exists>pre suf. ''<s>[INST] Hello [/INST]Hi <s>you</s>'' = pre @ ''[/INST]'' @ suf
           \<and> \<not> py_contains ''[/INST]'' (pre @ ''[/INST'')
           \<and> extract_hypothesis ''1'' ''<s>[INST] Hello [/INST]Hi <s>you</s>'' =
               Inr (py_strip (py_replace (py_replace suf ''<s>'' '''') ''</s>'' ''''), [])
           \<and> (well_framed suf \<longrightarrow>
                \<not> py_contains ''<s>''
                     (py_strip (py_replace (py_replace suf ''<s>'' '''') ''</s>'' ''''))
                \<and> \<not> py_contains ''</s>''
                     (py_strip (py_replace (py_replace suf ''<s>'' '''') ''</s>'' ''''))))
   \<and> well_framed ''Hi <s>you</s>''
   \<and> extract_hypothesis ''1'' ''<s>[INST] Hello [/INST]Hi <s>you</s>'' = Inr (''Hi you'', [])"
proof -
  have h: "py_contains ''[/INST]'' ''<s>[INST] Hello [/INST]Hi <s>you</s>''" by simp
  have wf: "well_framed ''Hi <s>you</s>''" by (simp add: well_framed_def)
  have r: "extract_hypothesis ''1'' ''<s>[INST] Hello [/INST]Hi <s>you</s>'' = Inr (''Hi you'', [])"
    by (simp add: extract_hypothesis_def py_split1_def py_replace_def py_strip_def
        is_space_def whitespace_def)
  from extraction_after_first_marker[OF h, of "''1''"] h wf r show ?thesis by blast
qed

text \<open>
  Claim C2 as stated fails: the decoded text \<open>[/INST]<<s>s>\<close> contains the marker, and
  its hypothesis is \<open><s>\<close>, which the deletion of the inner \<open><s>\<close> has put together.
\<close>

theorem residual_marker_counterexample:
  "py_contains ''[/INST]'' ''[/INST]<<s>s>''
   \<and> extract_hypothesis ''1'' ''[/INST]<<s>s>'' = Inr (''<s>'', [])
   \<and> py_contains ''<s>'' ''<s>''"
  by (simp add: extract_hypothesis_def py_split1_def py_replace_def py_strip_def
      is_space_def whitespace_def)

text \<open>
  Claim C9. Template and extraction agree on the delimiter: for every source text \<open>s\<close>
  without \<open>[/INST]\<close> and every continuation \<open>h\<close> without \<open>[/INST]\<close>, \<open><s>\<close> and
  \<open></s>\<close>, extraction applied to the rendered prompt followed by \<open>h\<close> yields \<open>h\<close>
  trimmed of surrounding whitespace, and logs nothing.
\<close>

theorem prompt_extraction_lockstep:
  assumes "\<not> py_contains ''[/INST]'' s"
    and "\<not> py_contains ''[/INST]'' h"
    and "\<not> py_contains ''<s>'' h"
    and "\<not> py_contains ''</s>'' h"
  shows "extract_hypothesis eid (generate_prompt s @ h) = Inr (py_strip h, [])"
proof -
  have "find_first ''[/INST]'' (generate_prompt s @ h) = Some (''[INST] '' @ s @ '' '', h)"
    using assms(1) by (rule prompt_marker_leftmost)
  then have "extract_hypothesis eid (generate_prompt s @ h) =
               Inr (py_strip (py_replace (py_replace h ''<s>'' '''') ''</s>'' ''''), [])"
    by (rule extract_found)
  moreover have "py_replace (py_replace h ''<s>'' '''') ''</s>'' '''' = h"
    using assms(3,4) by (simp add: py_replace_def replace_scan_absent)
  ultimately show ?thesis by simp
qed

theorem prompt_extraction_lockstep_witness:
  "\<not> py_contains ''[/INST]'' ''Hello'' \<and> \<not> py_contains ''[/INST]'' '' Pryvit ''
   \<and> \<not> py_contains ''<s>'' '' Pryvit '' \<and> \<not> py_contains ''</s>'' '' Pryvit ''
   \<and> extract_hypothesis ''1'' ''[INST] Hello [/INST] Pryvit '' = Inr (''Pryvit'', [])"
  using prompt_extraction_lockstep[of "''Hello''" "'' Pryvit ''" "''1''"]
  by (simp add: generate_prompt_def py_strip_def is_space_def whitespace_def)

subsection \<open>The loop over the checkpoints\<close>

text \<open>
  Claim C1. The output path of a checkpoint \<open>c\<close> is the output directory, \<open>/\<close>, \<open>c\<close>
  with every \<open>/\<close> replaced by \<open>-\<close>, \<open>.\<close>, the preset and \<open>.csv\<close>. When a file exists at
  that path, the body of the loop returns without an exception after adding only the two
  log records of a skip: the files and the state of the engine are unchanged, and no
  specialization and no generation call is made. After a run over the checkpoints \<open>cs\<close>
  that completed, a second run from the world it left is again a sequence of skips: it
  changes no file, leaves the engine alone, and makes no generation call.
\<close>

theorem idempotent_skip:
  "output_file a c =
     output_dir a @ ''/'' @ map (\<lambda>x. if x = CHR ''/'' then CHR ''-'' else x) c
       @ ''.'' @ preset a @ ''.csv''
   \<and> (files w0 (output_file a c) \<noteq> None \<longrightarrow>
        eval_checkpoint env a ds c w0 = (None, emit (skip_log c) w0)
        \<and> files (emit (skip_log c) w0) = files w0
        \<and> engine (emit (skip_log c) w0) = engine w0
        \<and> filter is_specialize (skip_log c) = []
        \<and> filter is_generate (skip_log c) = [])
   \<and> (run_checkpoints env a ds cs w = (None, w1) \<longrightarrow>
        run_checkpoints env a ds cs w1 = (None, emit (concat (map skip_log cs)) w1)
        \<and> files (emit (concat (map skip_log cs)) w1) = files w1
        \<and> engine (emit (concat (map skip_log cs)) w1) = engine w1
        \<and> filter is_specialize (concat (map skip_log cs)) = []
        \<and> filter is_generate (concat (map skip_log cs)) = [])"
proof (intro conjI impI)
  show "output_file a c =
     output_dir a @ ''/'' @ map (\<lambda>x. if x = CHR ''/'' then CHR ''-'' else x) c
       @ ''.'' @ preset a @ ''.csv''"
    by (simp add: output_file_def slug_replace)
next
  assume "files w0 (output_file a c) \<noteq> None"
  then show "eval_checkpoint env a ds c w0 = (None, emit (skip_log c) w0)"
    by (rule eval_checkpoint_skip)
next
  assume r: "run_checkpoints env a ds cs w = (None, w1)"
  have "\<forall>c \<in> set cs. files w1 (output_file a c) \<noteq> None"
    using run_checkpoints_exist[of env a ds cs w] r by simp
  then show "run_checkpoints env a ds cs w1 = (None, emit (concat (map skip_log cs)) w1)"
    by (rule run_checkpoints_skip_all)
qed (simp_all add: skip_log_no_generate skip_log_no_specialize skip_log_def)

theorem idempotent_skip_witness:
  "output_file defaults ''adapters/ckpt1'' = ''eval/adapters-ckpt1.greedy.csv''
   \<and> files demo_done (output_file defaults ''adapters/ckpt1'') \<noteq> None
   \<and> eval_checkpoint demo_env defaults [demo_example] ''adapters/ckpt1'' demo_done
       = (None, emit (skip_log ''adapters/ckpt1'') demo_done)
   \<and> run_checkpoints demo_env defaults [demo_example] [''adapters/ckpt1''] demo_world
       = (None, demo_done)
   \<and> run_checkpoints demo_env defaults [demo_example] [''adapters/ckpt1''] demo_done
       = (None, emit (concat (map skip_log [''adapters/ckpt1''])) demo_done)"
proof -
  have p: "output_file defaults ''adapters/ckpt1'' = ''eval/adapters-ckpt1.greedy.csv''"
    by code_simp
  have h1: "files demo_done (output_file defaults ''adapters/ckpt1'') \<noteq> None"
    by code_simp
  have "fst (run_checkpoints demo_env defaults [demo_example] [''adapters/ckpt1''] demo_world)
          = None"
    by code_simp
  then have h2: "run_checkpoints demo_env defaults [demo_example] [''adapters/ckpt1''] demo_world
                   = (None, demo_done)"
    by (simp add: demo_done_def prod_eq_iff)
  from idempotent_skip[where a = defaults and c = "''adapters/ckpt1''" and ?w0.0 = demo_done
         and env = demo_env and ds = "[demo_example]" and cs = "[''adapters/ckpt1'']"
         and w = demo_world and ?w1.0 = demo_done] p h1 h2
  show ?thesis by blast
qed

text \<open>
  Claim C4. When no file exists at the output path of a checkpoint and its evaluation
  runs to completion, every example of the dataset has been generated for, and the
  table holds the header \<open>id,source,reference,hypothesis\<close> once, then one row for each
  returned sequence, the examples in dataset order and, within an example, the
  sequences in the order the engine returned them; the first three fields of a row are
  the \<open>id\<close>, the source text and the reference text of its example.
\<close>

theorem table_rows_complete:
  assumes "files w (output_file a c) = None"
    and "fst (eval_checkpoint env a ds c w) = None"
  shows "map fst (generations env (beams (preset a)) ds (snd (specialize env c (engine w)))) = ds
         \<and> files (snd (eval_checkpoint env a ds c w)) (output_file a c) =
             Some (format_row env [''id'', ''source'', ''reference'', ''hypothesis'']
                   @ concat (map (format_row env)
                       (concat (map (\<lambda>(ex, seqs).
                                  map (\<lambda>s. [ex_id ex, orig ex, ex_trans ex,
                                            hypothesis_of (ex_id ex) (decode env s)]) seqs)
                          (generations env (beams (preset a)) ds
                             (snd (specialize env c (engine w))))))))"
proof -
  have fin: "fst (eval_checkpoint env a ds c w) = Some (GenerationFailure [])
              \<or> fst (eval_checkpoint env a ds c w) = None"
    using assms(2) by simp
  have "row_of env = (\<lambda>ex s. [ex_id ex, orig ex, ex_trans ex, hypothesis_of (ex_id ex) (decode env s)])"
    by (simp add: row_of_def fun_eq_iff)
  then show ?thesis
    using eval_checkpoint_table[OF assms(1) fin] assms(2)
    by (simp add: table_of_def rows_of_def fieldnames_def)
qed

theorem table_rows_complete_witness:
  "files demo_world (output_file defaults ''adapters/ckpt1'') = None
   \<and> fst (eval_checkpoint demo_env defaults [demo_example] ''adapters/ckpt1'' demo_world) = None
   \<and> generations demo_env 1 [demo_example] 1 = [(demo_example, [[1], [2]])]
   \<and> files (snd (eval_checkpoint demo_env defaults [demo_example] ''adapters/ckpt1'' demo_world))
        ''eval/adapters-ckpt1.greedy.csv''
      = Some (comma_row [''id'', ''source'', ''reference'', ''hypothesis'']
              @ comma_row [''1'', ''Hello'', ''Pryvit'', ''Hi'']
              @ comma_row [''1'', ''Hello'', ''Pryvit'', ''''])"
proof -
  have h1: "files demo_world (output_file defaults ''adapters/ckpt1'') = None" by code_simp
  have h2: "fst (eval_checkpoint demo_env defaults [demo_example] ''adapters/ckpt1'' demo_world)
              = None"
    by code_simp
  have g: "generations demo_env 1 [demo_example] 1 = [(demo_example, [[1], [2]])]"
    by (simp add: demo_env_def)
  have e: "beams (preset defaults) = 1" "snd (specialize demo_env ''adapters/ckpt1'' (engine demo_world)) = 1"
    by (simp_all add: beams_def defaults_def demo_env_def demo_world_def)
  have p: "output_file defaults ''adapters/ckpt1'' = ''eval/adapters-ckpt1.greedy.csv''"
    by code_simp
  have r: "hypothesis_of ''1'' (decode demo_env [1]) = ''Hi''"
          "hypothesis_of ''1'' (decode demo_env [2]) = ''''"
          "format_row demo_env = comma_row"
    by (code_simp, code_simp, simp add: demo_env_def)
  from table_rows_complete[OF h1 h2] h1 h2 g show ?thesis
    unfolding e g p by (simp add: r demo_example_def)
qed

text \<open>
  Claim C6, as amended. When the engine raises during a generation call for checkpoint
  \<open>c\<close>, after the checkpoints listed before it have completed, the exception is not
  caught and ends the whole run: the run over the list returns that exception with the
  world as it was when \<open>c\<close> failed, whatever is listed after \<open>c\<close>. No file other than
  the table of \<open>c\<close> differs from what the earlier checkpoints left, so their tables are
  unchanged. The table of \<open>c\<close> exists and is partial: the header and the rows of the
  examples before the failing call, which are fewer than the dataset.
\<close>

theorem generation_failure_aborts_run:
  assumes "run_checkpoints env a ds before w = (None, w1)"
    and "fst (eval_checkpoint env a ds c w1) = Some (GenerationFailure msg)"
  shows "run_checkpoints env a ds (before @ c # after) w =
           (Some (GenerationFailure msg), snd (eval_checkpoint env a ds c w1))
         \<and> (\<forall>p. p \<noteq> output_file a c \<longrightarrow>
                files (snd (eval_checkpoint env a ds c w1)) p = files w1 p)
         \<and> strict_prefix
              (map fst (generations env (beams (preset a)) ds
                          (snd (specialize env c (engine w1))))) ds
         \<and> files (snd (eval_checkpoint env a ds c w1)) (output_file a c) =
             Some (table_of env (rows_of env
                     (generations env (beams (preset a)) ds
                        (snd (specialize env c (engine w1))))))"
proof -
  have absent: "files w1 (output_file a c) = None"
  proof (rule ccontr)
    assume "files w1 (output_file a c) \<noteq> None"
    then have "eval_checkpoint env a ds c w1 = (None, emit (skip_log c) w1)"
      by (rule eval_checkpoint_skip)
    with assms(2) show False by simp
  qed
  have fail: "fst (eval_checkpoint env a ds c w1) = Some (GenerationFailure msg)
              \<or> fst (eval_checkpoint env a ds c w1) = None"
    using assms(2) by simp
  have "eval_checkpoint env a ds c w1 =
          (Some (GenerationFailure msg), snd (eval_checkpoint env a ds c w1))"
    using assms(2) by (simp add: prod_eq_iff)
  with assms(1) have "run_checkpoints env a ds (before @ c # after) w =
           (Some (GenerationFailure msg), snd (eval_checkpoint env a ds c w1))"
    by (rule run_checkpoints_abort)
  moreover have "\<forall>p. p \<noteq> output_file a c \<longrightarrow>
                files (snd (eval_checkpoint env a ds c w1)) p = files w1 p"
    by (simp add: eval_checkpoint_frame)
  moreover have "strict_prefix
              (map fst (generations env (beams (preset a)) ds
                          (snd (specialize env c (engine w1))))) ds"
    using eval_checkpoint_table(2)[OF absent fail] assms(2) generations_prefix
    by (auto simp: strict_prefix_def)
  moreover note eval_checkpoint_table(1)[OF absent fail]
  ultimately show ?thesis by blast
qed

theorem generation_failure_aborts_run_witness:
  "run_checkpoints flaky_env defaults [demo_example] [''a''] demo_world = (None, flaky_done)
   \<and> fst (eval_checkpoint flaky_env defaults [demo_example] ''b'' flaky_done)
       = Some (GenerationFailure ''out of memory'')
   \<and> run_checkpoints flaky_env defaults [demo_example] ([''a''] @ ''b'' # [''c'']) demo_world
       = (Some (GenerationFailure ''out of memory''),
          snd (eval_checkpoint flaky_env defaults [demo_example] ''b'' flaky_done))
   \<and> files (snd (eval_checkpoint flaky_env defaults [demo_example] ''b'' flaky_done))
        (output_file defaults ''a'') = files flaky_done (output_file defaults ''a'')
   \<and> files flaky_done (output_file defaults ''a'')
       = Some (comma_row [''id'', ''source'', ''reference'', ''hypothesis'']
               @ comma_row [''1'', ''Hello'', ''Pryvit'', ''Hi''])
   \<and> files (snd (eval_checkpoint flaky_env defaults [demo_example] ''b'' flaky_done))
        (output_file defaults ''b'')
       = Some (comma_row [''id'', ''source'', ''reference'', ''hypothesis''])"
proof -
  have "fst (run_checkpoints flaky_env defaults [demo_example] [''a''] demo_world) = None"
    by code_simp
  then have h1: "run_checkpoints flaky_env defaults [demo_example] [''a''] demo_world
                   = (None, flaky_done)"
    by (simp add: flaky_done_def prod_eq_iff)
  have h2: "fst (eval_checkpoint flaky_env defaults [demo_example] ''b'' flaky_done)
              = Some (GenerationFailure ''out of memory'')"
    by code_simp
  have ne: "output_file defaults ''a'' \<noteq> output_file defaults ''b''" by code_simp
  have fa: "files flaky_done (output_file defaults ''a'')
       = Some (comma_row [''id'', ''source'', ''reference'', ''hypothesis'']
               @ comma_row [''1'', ''Hello'', ''Pryvit'', ''Hi''])"
    by code_simp
  have fb: "files (snd (eval_checkpoint flaky_env defaults [demo_example] ''b'' flaky_done))
        (output_file defaults ''b'')
       = Some (comma_row [''id'', ''source'', ''reference'', ''hypothesis''])"
    by code_simp
  from generation_failure_aborts_run[OF h1 h2, of "[''c'']"] h1 h2 ne fa fb
  show ?thesis by blast
qed

text \<open>
  Claim C6 as stated fails in its last part: with the checkpoints \<open>a\<close>, \<open>b\<close>, \<open>c\<close> and
  an engine that raises while generating for \<open>b\<close>, the run ends with that exception; \<open>b\<close>
  was specialized, \<open>c\<close> never is, and no table exists for \<open>c\<close>.
\<close>

theorem later_checkpoints_counterexample:
  "fst (run_checkpoints flaky_env defaults [demo_example] [''a'', ''b'', ''c''] demo_world)
     = Some (GenerationFailure ''out of memory'')
   \<and> Specialize ''b''
       \<in> set (trace (snd (run_checkpoints flaky_env defaults [demo_example] [''a'', ''b'', ''c'']
                            demo_world)))
   \<and> Specialize ''c''
       \<notin> set (trace (snd (run_checkpoints flaky_env defaults [demo_example] [''a'', ''b'', ''c'']
                            demo_world)))
   \<and> files (snd (run_checkpoints flaky_env defaults [demo_example] [''a'', ''b'', ''c'']
                     demo_world)) (output_file defaults ''c'') = None"
  by code_simp

subsection \<open>The loop over the sequences\<close>

text \<open>
  Claim C5. For a sequence whose decoded text does not contain \<open>[/INST]\<close>, extraction
  returns the empty string and exactly one log record, a warning whose message carries
  the id of the example; the row is written with an empty hypothesis and the loop goes
  on with the remaining sequences. The loop over the sequences of an example never
  raises, it logs one warning for each text without the marker and no other, and after
  it the loop over the examples goes on with the next example.
\<close>

theorem missing_marker_nonfatal:
  assumes "\<not> py_contains ''[/INST]'' (decode env s)"
  shows "extract_hypothesis (ex_id ex) (decode env s) =
           Inr ('''', [Log WARNING (''Got invalid response for '' @ ex_id ex @ '': ''
                                    @ decode env s)])
         \<and> eval_sequences env path ex (s # ss) w =
             eval_sequences env path ex ss
               (write_file path (format_row env [ex_id ex, orig ex, ex_trans ex, ''''])
                  (emit [Log WARNING (''Got invalid response for '' @ ex_id ex @ '': ''
                                      @ decode env s),
                         Print ''''] w))
         \<and> fst (eval_sequences env path ex seqs w) = None
         \<and> length (filter is_warning (trace (snd (eval_sequences env path ex seqs w)))) =
             length (filter is_warning (trace w))
             + length (filter (\<lambda>s. \<not> py_contains ''[/INST]'' (decode env s)) seqs)
         \<and> (generate env (input_ids ex) b (engine w) = (Inr seqs, e) \<longrightarrow>
              eval_examples env path b (ex # exs) w =
                eval_examples env path b exs
                  (snd (eval_sequences env path ex seqs
                          (emit [Generate (input_ids ex) b] (w\<lparr>engine := e\<rparr>)))))"
proof -
  have x: "extract_hypothesis (ex_id ex) (decode env s) =
           Inr ('''', [Log WARNING (''Got invalid response for '' @ ex_id ex @ '': ''
                                    @ decode env s)])"
    using assms by (simp add: extract_hypothesis_def)
  have "eval_sequences env path ex (s # ss) w =
             eval_sequences env path ex ss
               (write_file path (format_row env [ex_id ex, orig ex, ex_trans ex, ''''])
                  (emit [Log WARNING (''Got invalid response for '' @ ex_id ex @ '': ''
                                      @ decode env s),
                         Print ''''] w))"
    by (simp add: x)
  moreover have "generate env (input_ids ex) b (engine w) = (Inr seqs, e) \<longrightarrow>
              eval_examples env path b (ex # exs) w =
                eval_examples env path b exs
                  (snd (eval_sequences env path ex seqs
                          (emit [Generate (input_ids ex) b] (w\<lparr>engine := e\<rparr>))))"
    by (rule impI) (rule eval_examples_step)
  moreover note x eval_sequences_ok[of env path ex seqs w]
    eval_sequences_warnings[of env path ex seqs w]
  ultimately show ?thesis by blast
qed

theorem missing_marker_nonfatal_witness:
  "\<not> py_contains ''[/INST]'' (decode demo_env [2])
   \<and> extract_hypothesis (ex_id demo_example) (decode demo_env [2]) =
       Inr ('''', [Log WARNING (''Got invalid response for '' @ ex_id demo_example @ '': ''
                                @ decode demo_env [2])])
   \<and> fst (eval_sequences demo_env ''eval/c.greedy.csv'' demo_example [[2], [1]] demo_world) = None
   \<and> filter is_warning
        (trace (snd (eval_sequences demo_env ''eval/c.greedy.csv'' demo_example [[2], [1]]
                       demo_world)))
      = [Log WARNING ''Got invalid response for 1: Hi'']
   \<and> files (snd (eval_sequences demo_env ''eval/c.greedy.csv'' demo_example [[2], [1]]
                     demo_world)) ''eval/c.greedy.csv''
      = Some (comma_row [''1'', ''Hello'', ''Pryvit'', '''']
              @ comma_row [''1'', ''Hello'', ''Pryvit'', ''Hi''])"
proof -
  have h: "\<not> py_contains ''[/INST]'' (decode demo_env [2])" by code_simp
  have w: "filter is_warning
        (trace (snd (eval_sequences demo_env ''eval/c.greedy.csv'' demo_example [[2], [1]]
                       demo_world)))
      = [Log WARNING ''Got invalid response for 1: Hi'']"
    by code_simp
  have f: "files (snd (eval_sequences demo_env ''eval/c.greedy.csv'' demo_example [[2], [1]]
                     demo_world)) ''eval/c.greedy.csv''
      = Some (comma_row [''1'', ''Hello'', ''Pryvit'', '''']
              @ comma_row [''1'', ''Hello'', ''Pryvit'', ''Hi''])"
    by code_simp
  from missing_marker_nonfatal[OF h, where ex = demo_example and path = "''eval/c.greedy.csv''"
         and seqs = "[[2], [1]]" and w = demo_world] h w f
  show ?thesis by blast
qed

subsection \<open>The command line\<close>



text \<open>
  Claim C8, as amended. \<open>--checkpoints\<close> takes zero or more values: the command line
  that gives the option no value is accepted by the parser, with an empty list of
  checkpoints. With an empty list the script runs: when the dataset loads, it loads the
  tokenizer, the dataset and the base model, evaluates nothing, writes no file and ends
  without an exception.
\<close>

theorem empty_checkpoints_accepted:
  "parse_args [''--checkpoints''] = Inr (defaults\<lparr>checkpoints := Some []\<rparr>)
   \<and> (parse_args argv = Inr a \<and> checkpoints a = Some [] \<and> files w (dataset a) = Some content
        \<and> load_rows env (read_csv env content) = Inr ds \<longrightarrow>
        main env argv w =
          (None,
           emit [Log INFO ''Got 0 checkpoints to evaluate'',
                 Log INFO (''Loading tokenizer '' @ base_model a),
                 LoadTokenizer (base_model a),
                 Log INFO (''Loading dataset '' @ dataset a),
                 OpenRead (dataset a),
                 Log INFO (''Loaded and tokenized '' @ string_of_nat (length ds) @ '' examples''),
                 LoadModel (base_model a),
                 Log INFO ''Loaded base model'']
             (w\<lparr>engine := load_model env (base_model a) (engine w)\<rparr>)))"
  by (auto simp: parse_args_def option_like_def main_def emit_def defaults_def)

theorem empty_checkpoints_accepted_witness:
  "parse_args [''--checkpoints''] = Inr (defaults\<lparr>checkpoints := Some []\<rparr>)
   \<and> files demo_world (dataset (defaults\<lparr>checkpoints := Some []\<rparr>)) = Some ''the benchmark''
   \<and> load_rows demo_env (read_csv demo_env ''the benchmark'') = Inr [demo_example]
   \<and> fst (main demo_env [''--checkpoints''] demo_world) = None
   \<and> files (snd (main demo_env [''--checkpoints''] demo_world)) = files demo_world"
proof -
  have h1: "parse_args [''--checkpoints''] = Inr (defaults\<lparr>checkpoints := Some []\<rparr>)"
    by (simp add: parse_args_def option_like_def)
  have h2: "checkpoints (defaults\<lparr>checkpoints := Some []\<rparr>) = Some []" by simp
  have h3: "files demo_world (dataset (defaults\<lparr>checkpoints := Some []\<rparr>)) = Some ''the benchmark''"
    by (simp add: demo_world_def defaults_def)
  have h4: "load_rows demo_env (read_csv demo_env ''the benchmark'') = Inr [demo_example]"
    by (simp add: demo_env_def demo_rows_def demo_example_def generate_prompt_def)
  from empty_checkpoints_accepted[where argv = "[''--checkpoints'']"
         and a = "defaults\<lparr>checkpoints := Some []\<rparr>" and w = demo_world
         and content = "''the benchmark''" and env = demo_env and ds = "[demo_example]"]
       h1 h2 h3 h4
  show ?thesis by simp
qed

text \<open>
  Claim C8 as stated fails: the parser accepts the empty command line, where
  \<open>--checkpoints\<close> is absent, and the command line that gives \<open>--checkpoints\<close> no value.
\<close>

theorem checkpoints_optional_counterexample:
  "parse_args [] = Inr defaults
   \<and> parse_args [''--checkpoints''] = Inr (defaults\<lparr>checkpoints := Some []\<rparr>)"
  by (simp add: parse_args_def option_like_def)

end
